theory Spec2Isabelle
  imports Main
begin

section \<open>celldb: the client of the sample-by-feature expression store\<close>

text \<open>
  The module \<^verbatim>\<open>celldb/client/client.py\<close> builds SQL text and hands it to a
  phoenixdb cursor. The cursor and the database behind it are not part of the module, so
  the embedding makes them explicit:
  \<^item> a backend is any deterministic transition \<open>'b \<Rightarrow> string \<Rightarrow> string option \<times> 'b\<close>:
    given its state and a statement it either accepts (\<open>None\<close>) or raises
    (\<open>Some message\<close>), and moves to a next state either way;
  \<^item> a cursor is a record of the statements issued through it so far, in order, the
    backend state, and what the process has printed;
  \<^item> a Python function that takes the cursor becomes a function from the cursor to a
    result (\<open>Inl\<close> an exception, \<open>Inr\<close> the returned value) and the cursor afterwards.
  A leading underscore of a Python name is written \<open>priv_\<close>. The identifiers of
  features and samples are Python strings and are pasted into the statements as they are.
  \<^verbatim>\<open>connect\<close>, \<^verbatim>\<open>list_features\<close> and \<^verbatim>\<open>list_samples\<close> take no part in the
  properties below and are left out.
\<close>

subsection \<open>Strings\<close>

text \<open>The module constant \<^verbatim>\<open>DTYPE = "DECIMAL(10, 6)"\<close>.\<close>

definition DTYPE :: string where
  "DTYPE = ''DECIMAL(10, 6)''"

text \<open>\<^verbatim>\<open>sep.join(xs)\<close> on a list of strings.\<close>

fun join :: "string \<Rightarrow> string list \<Rightarrow> string" where
  "join sep [] = []"
| "join sep [x] = x"
| "join sep (x # y # ys) = x @ sep @ join sep (y # ys)"

text \<open>\<^verbatim>\<open>"'{}'".format(x)\<close>: the text between two single quotes, nothing escaped.\<close>

definition quoted :: "string \<Rightarrow> string" where
  "quoted x = [CHR 0x27] @ x @ [CHR 0x27]"

text \<open>
  Python truthiness of an optional sequence, as in \<^verbatim>\<open>if featureName:\<close> and
  \<^verbatim>\<open>if featureNames\<close>: \<^verbatim>\<open>None\<close>, the empty string and the empty list are false.
\<close>

definition truthy :: "'a list option \<Rightarrow> bool" where
  "truthy x = (case x of None \<Rightarrow> False | Some xs \<Rightarrow> xs \<noteq> [])"

subsection \<open>Exceptions, the cursor and sequencing\<close>

text \<open>
  \<open>DatabaseError\<close> is whatever the phoenixdb objects raise (\<^verbatim>\<open>cursor.execute\<close>,
  \<^verbatim>\<open>connection.cursor\<close>); \<open>Exception\<close> is the plain
  \<^verbatim>\<open>Exception(message)\<close> the module raises itself; \<open>IndexError\<close> is a list index out
  of range.
\<close>

datatype exn = DatabaseError string | Exception string | IndexError

record 'b cursor =
  issued :: "string list"
  db :: 'b
  printed :: "exn list"

type_synonym 'b backend = "'b \<Rightarrow> string \<Rightarrow> string option \<times> 'b"

type_synonym ('b, 'a) action = "'b cursor \<Rightarrow> (exn + 'a) \<times> 'b cursor"

text \<open>
  \<^verbatim>\<open>cursor.execute(sql)\<close>: the statement reaches the backend (it is appended to the
  log) whether or not the backend then raises.
\<close>

definition execute :: "'b backend \<Rightarrow> string \<Rightarrow> ('b, unit) action" where
  "execute bk sql c =
     (case bk (db c) sql of
        (None, b) \<Rightarrow> (Inr (), c\<lparr>issued := issued c @ [sql], db := b\<rparr>)
      | (Some msg, b) \<Rightarrow> (Inl (DatabaseError msg), c\<lparr>issued := issued c @ [sql], db := b\<rparr>))"

text \<open>One statement after another: an exception of the first skips the second.\<close>

definition and_then :: "('b, 'a) action \<Rightarrow> ('a \<Rightarrow> ('b, 'c) action) \<Rightarrow> ('b, 'c) action" where
  "and_then m f c = (case m c of (Inl e, c') \<Rightarrow> (Inl e, c') | (Inr x, c') \<Rightarrow> f x c')"

definition returns :: "'a \<Rightarrow> ('b, 'a) action" where
  "returns x c = (Inr x, c)"

definition raises :: "exn \<Rightarrow> ('b, 'a) action" where
  "raises e c = (Inl e, c)"

text \<open>A \<^verbatim>\<open>for\<close> loop over a list: the first exception leaves the loop.\<close>

fun for_each :: "('a \<Rightarrow> ('b, unit) action) \<Rightarrow> 'a list \<Rightarrow> ('b, unit) action" where
  "for_each body [] c = (Inr (), c)"
| "for_each body (x # xs) c =
     (case body x c of (Inl e, c') \<Rightarrow> (Inl e, c') | (Inr u, c') \<Rightarrow> for_each body xs c')"

subsection \<open>The functions of client.py\<close>

definition priv_create_expressions_table :: "'b backend \<Rightarrow> ('b, unit) action" where
  "priv_create_expressions_table bk =
     execute bk ''CREATE TABLE Expressions (sampleId VARCHAR PRIMARY KEY)''"

definition priv_create_features_table :: "'b backend \<Rightarrow> ('b, unit) action" where
  "priv_create_features_table bk =
     execute bk ''CREATE TABLE Features (featureId VARCHAR PRIMARY KEY, featureName VARCHAR)''"

definition priv_upsert_feature :: "'b backend \<Rightarrow> string \<Rightarrow> string option \<Rightarrow> ('b, unit) action" where
  "priv_upsert_feature bk featureId featureName =
     (let sql =
        (if truthy featureName
         then ''UPSERT INTO Features(featureId, featureName) VALUES ('' @
              quoted featureId @ '', '' @ quoted (the featureName) @ '')''
         else ''UPSERT INTO Features(featureId) VALUES ('' @ quoted featureId @ '')'')
      in execute bk sql)"

definition priv_feature_dtype_list :: "string list \<Rightarrow> string" where
  "priv_feature_dtype_list featureIds = join '', '' (map (\<lambda>x. x @ '' '' @ DTYPE) featureIds)"

text \<open>
  The values of a sample are numbers of any Python numeric type; the module renders each
  with \<^verbatim>\<open>str\<close>, which is a parameter here.
\<close>

definition priv_upsert_sample ::
  "'b backend \<Rightarrow> ('v \<Rightarrow> string) \<Rightarrow> string \<Rightarrow> string list \<Rightarrow> 'v list \<Rightarrow> ('b, unit) action" where
  "priv_upsert_sample bk str sampleId featureIds vals =
     (let sql = ''UPSERT INTO Expressions(sampleId, '' @ join '', '' featureIds @
                '') VALUES ('' @ quoted sampleId @ '', '' @ join '', '' (map str vals) @ '')''
      in execute bk sql)"

definition priv_alter_expressions_table :: "'b backend \<Rightarrow> string list \<Rightarrow> ('b, unit) action" where
  "priv_alter_expressions_table bk featureIds =
     (let feature_list = priv_feature_dtype_list featureIds;
          sql = ''ALTER TABLE Expressions ADD '' @ feature_list
      in execute bk sql)"

definition priv_upsert_features ::
  "'b backend \<Rightarrow> string list \<Rightarrow> string list option \<Rightarrow> ('b, unit) action" where
  "priv_upsert_features bk featureIds featureNames =
     (if truthy featureNames \<and> length featureIds = length (the featureNames)
      then for_each (\<lambda>(featureId, featureName). priv_upsert_feature bk featureId (Some featureName))
             (zip featureIds (the featureNames))
      else if truthy featureNames
      then raises (Exception ''list of featureIds and featureNames did not match'')
      else for_each (\<lambda>featureId. priv_upsert_feature bk featureId None) featureIds)"

definition upsert_feature :: "'b backend \<Rightarrow> string \<Rightarrow> string option \<Rightarrow> ('b, unit) action" where
  "upsert_feature bk featureId featureName =
     and_then (priv_alter_expressions_table bk [featureId])
       (\<lambda>_. priv_upsert_feature bk featureId featureName)"

definition upsert_features ::
  "'b backend \<Rightarrow> string list \<Rightarrow> string list option \<Rightarrow> ('b, unit) action" where
  "upsert_features bk featureIds featureNames =
     and_then (priv_alter_expressions_table bk featureIds)
       (\<lambda>_. priv_upsert_features bk featureIds featureNames)"

definition upsert_sample ::
  "'b backend \<Rightarrow> ('v \<Rightarrow> string) \<Rightarrow> string \<Rightarrow> string list \<Rightarrow> 'v list \<Rightarrow> bool \<Rightarrow> ('b, unit) action" where
  "upsert_sample bk str sampleId featureIds vals add_features =
     and_then
       (if add_features
        then and_then (priv_alter_expressions_table bk featureIds)
               (\<lambda>_. priv_upsert_features bk featureIds None)
        else returns ())
       (\<lambda>_. priv_upsert_sample bk str sampleId featureIds vals)"

text \<open>
  \<^verbatim>\<open>for k, sampleId in enumerate(sampleIds)\<close> reads \<^verbatim>\<open>vectors[k]\<close>, which raises
  \<^verbatim>\<open>IndexError\<close> when \<open>vectors\<close> is shorter than \<open>sampleIds\<close>.
\<close>

definition upsert_samples ::
  "'b backend \<Rightarrow> ('v \<Rightarrow> string) \<Rightarrow> string list \<Rightarrow> string list \<Rightarrow> 'v list list \<Rightarrow> ('b, unit) action" where
  "upsert_samples bk str sampleIds featureIds vectors =
     and_then (priv_alter_expressions_table bk featureIds) (\<lambda>_.
     and_then (priv_upsert_features bk featureIds None) (\<lambda>_.
     for_each
       (\<lambda>(k, sampleId).
          if k < length vectors
          then priv_upsert_sample bk str sampleId featureIds (vectors ! k)
          else raises IndexError)
       (enumerate 0 sampleIds)))"

definition matrix_sql :: "string list \<Rightarrow> string list \<Rightarrow> string" where
  "matrix_sql sampleIds featureIds =
     (let feature_list = join '', '' featureIds;
          sample_list = join '', '' (map quoted sampleIds)
      in ''SELECT sampleId, '' @ feature_list @
         '' from Expressions WHERE sampleId IN('' @ sample_list @ '')'')"

text \<open>
  \<^verbatim>\<open>matrix\<close> executes the query and returns \<^verbatim>\<open>cursor.fetchall()\<close>. The rows are
  what the backend holds after the statement: \<open>fetchall\<close> is a parameter, as the backend is.
\<close>

definition matrix ::
  "'b backend \<Rightarrow> ('b \<Rightarrow> 'r list) \<Rightarrow> string list \<Rightarrow> string list \<Rightarrow> ('b, 'r list) action" where
  "matrix bk fetchall sampleIds featureIds =
     and_then (execute bk (matrix_sql sampleIds featureIds))
       (\<lambda>_ cursor. (Inr (fetchall (db cursor)), cursor))"

text \<open>
  \<^verbatim>\<open>_safe_fn(fn, *args)\<close>: the value of \<open>fn\<close>, or \<^verbatim>\<open>None\<close> after printing the
  exception it raised.
\<close>

definition priv_safe_fn :: "('b, 'a) action \<Rightarrow> ('b, 'a option) action" where
  "priv_safe_fn fn c =
     (case fn c of
        (Inr r, c') \<Rightarrow> (Inr (Some r), c')
      | (Inl e, c') \<Rightarrow> (Inr None, c'\<lparr>printed := printed c' @ [e]\<rparr>))"

text \<open>
  \<^verbatim>\<open>connection.cursor()\<close> hands out a cursor or raises (a closed connection does). The
  call stands outside \<^verbatim>\<open>_safe_fn\<close>, so its exception is the exception of
  \<^verbatim>\<open>initialize\<close>; otherwise \<^verbatim>\<open>initialize\<close> returns the cursor.
\<close>

record 'b connection =
  connection_cursor :: "exn + 'b cursor"

definition initialize :: "'b backend \<Rightarrow> 'b connection \<Rightarrow> exn + 'b cursor" where
  "initialize bk connection =
     (case connection_cursor connection of
        Inl e \<Rightarrow> Inl e
      | Inr cursor \<Rightarrow>
          (case and_then (priv_safe_fn (priv_create_expressions_table bk)) (\<lambda>_.
                and_then (priv_safe_fn (priv_create_features_table bk)) (\<lambda>_.
                returns ())) cursor of
             (Inl e, c') \<Rightarrow> Inl e
           | (Inr u, c') \<Rightarrow> Inr c'))"

subsection \<open>Statement texts and sequential execution\<close>

text \<open>
  The texts the module formats, written out once for the statements below: the column
  addition, the catalog entry without a name, and the row of one sample. \<open>run_all\<close>
  executes a list of statements in order and stops at the first one the backend refuses.
  \<open>refuse_only\<close> is a backend that refuses exactly one text, and \<open>arity_message\<close> the
  message of the exception the module raises itself.
\<close>

definition alter_text :: "string list \<Rightarrow> string" where
  "alter_text featureIds =
     ''ALTER TABLE Expressions ADD '' @ join '', '' (map (\<lambda>f. f @ '' DECIMAL(10, 6)'') featureIds)"

definition register_text :: "string \<Rightarrow> string" where
  "register_text featureId = ''UPSERT INTO Features(featureId) VALUES ('' @ quoted featureId @ '')''"

definition row_text :: "('v \<Rightarrow> string) \<Rightarrow> string list \<Rightarrow> string \<times> 'v list \<Rightarrow> string" where
  "row_text str featureIds = (\<lambda>(sampleId, vals).
     ''UPSERT INTO Expressions(sampleId, '' @ join '', '' featureIds @ '') VALUES ('' @
     quoted sampleId @ '', '' @ join '', '' (map str vals) @ '')'')"

text \<open>
  The catalog entry of a feature with an optional name: the name column is written only for
  a non-empty name.
\<close>

definition catalog_text :: "string \<Rightarrow> string option \<Rightarrow> string" where
  "catalog_text featureId featureName =
     (case featureName of
        None \<Rightarrow> register_text featureId
      | Some name \<Rightarrow>
          if name = [] then register_text featureId
          else ''UPSERT INTO Features(featureId, featureName) VALUES ('' @
               quoted featureId @ '', '' @ quoted name @ '')'')"

definition run_all :: "'b backend \<Rightarrow> string list \<Rightarrow> ('b, unit) action" where
  "run_all bk stmts = for_each (execute bk) stmts"

definition refuse_only :: "string \<Rightarrow> unit backend" where
  "refuse_only stmt b sql = (if sql = stmt then (Some ''refused'', b) else (None, b))"

definition arity_message :: string where
  "arity_message = ''list of featureIds and featureNames did not match''"

subsection \<open>Reading statements back\<close>

text \<open>
  What a statement text says is read off the text itself. \<open>read_projection\<close> accepts the
  projection the module aims at,
  \<^verbatim>\<open>SELECT <columns> from Expressions WHERE sampleId IN(<keys>)\<close>, where the columns are a
  non-empty list of names and the keys a non-empty list of quoted literals, both separated by
  a comma and a space, and returns the columns and the keys; \<open>read_alter\<close> accepts
  \<^verbatim>\<open>ALTER TABLE Expressions ADD <name> <type>, ...\<close> with at least one pair and returns
  the pairs. A name is a non-empty word of letters, digits and underscores; a literal runs
  from a single quote to the next one; a type is a word with an optional parenthesised
  argument text. A text that does not have the shape is answered with \<open>None\<close>.
\<close>

fun expect :: "string \<Rightarrow> string \<Rightarrow> string option" where
  "expect [] s = Some s"
| "expect (p # ps) [] = None"
| "expect (p # ps) (c # cs) = (if p = c then expect ps cs else None)"

definition ident_char :: "char \<Rightarrow> bool" where
  "ident_char c \<longleftrightarrow>
     c \<in> set ''abcdefghijklmnopqrstuvwxyzABCDEFGHIJKLMNOPQRSTUVWXYZ0123456789_''"

definition is_identifier :: "string \<Rightarrow> bool" where
  "is_identifier s \<longleftrightarrow> s \<noteq> [] \<and> list_all ident_char s"

definition quote_free :: "string \<Rightarrow> bool" where
  "quote_free s \<longleftrightarrow> list_all (\<lambda>c. c \<noteq> CHR 0x27) s"

definition read_word :: "string \<Rightarrow> (string \<times> string) option" where
  "read_word s =
     (let w = takeWhile ident_char s
      in if w = [] then None else Some (w, dropWhile ident_char s))"

definition read_literal :: "string \<Rightarrow> (string \<times> string) option" where
  "read_literal s =
     (case s of
        [] \<Rightarrow> None
      | q # s1 \<Rightarrow>
          if q \<noteq> CHR 0x27 then None
          else (case dropWhile (\<lambda>c. c \<noteq> CHR 0x27) s1 of
                  [] \<Rightarrow> None
                | q' # rest \<Rightarrow> Some (takeWhile (\<lambda>c. c \<noteq> CHR 0x27) s1, rest)))"

text \<open>
  A list of items separated by a comma and a space, at least one item. An item reader
  answers with the item and the text after it; the list goes on while a separator follows.
  The test on the lengths holds for every reader that answers with a rest of its input, and
  makes the recursion well-founded for any reader.
\<close>

function comma_list :: "(string \<Rightarrow> ('a \<times> string) option) \<Rightarrow> string \<Rightarrow> ('a list \<times> string) option" where
  "comma_list item s =
     (case item s of
        None \<Rightarrow> None
      | Some (x, r) \<Rightarrow>
          (case expect '', '' r of
             None \<Rightarrow> Some ([x], r)
           | Some r' \<Rightarrow>
               if length r' < length s
               then (case comma_list item r' of
                       None \<Rightarrow> None
                     | Some (xs, r'') \<Rightarrow> Some (x # xs, r''))
               else None))"
  by pat_completeness auto
termination
  by (relation "measure (\<lambda>(item, s). length s)") auto

declare comma_list.simps [simp del]

definition read_projection :: "string \<Rightarrow> (string list \<times> string list) option" where
  "read_projection q =
     (case expect ''SELECT '' q of
        None \<Rightarrow> None
      | Some r1 \<Rightarrow>
     (case comma_list read_word r1 of
        None \<Rightarrow> None
      | Some (columns, r2) \<Rightarrow>
     (case expect '' from Expressions WHERE sampleId IN('' r2 of
        None \<Rightarrow> None
      | Some r3 \<Rightarrow>
     (case comma_list read_literal r3 of
        None \<Rightarrow> None
      | Some (keys, r4) \<Rightarrow> if r4 = '')'' then Some (columns, keys) else None))))"

definition column_type :: "string \<Rightarrow> (string \<times> string) option" where
  "column_type s =
     (case read_word s of
        None \<Rightarrow> None
      | Some (t, r) \<Rightarrow>
          (case r of
             [] \<Rightarrow> Some (t, r)
           | c # r1 \<Rightarrow>
               if c \<noteq> CHR ''('' then Some (t, r)
               else (case dropWhile (\<lambda>c. c \<noteq> CHR '')'') r1 of
                       [] \<Rightarrow> None
                     | c' # r2 \<Rightarrow>
                         Some (t @ ''('' @ takeWhile (\<lambda>c. c \<noteq> CHR '')'') r1 @ '')'', r2))))"

definition column_def :: "string \<Rightarrow> ((string \<times> string) \<times> string) option" where
  "column_def s =
     (case read_word s of
        None \<Rightarrow> None
      | Some (name, r) \<Rightarrow>
     (case expect '' '' r of
        None \<Rightarrow> None
      | Some r1 \<Rightarrow>
     (case column_type r1 of
        None \<Rightarrow> None
      | Some (t, r2) \<Rightarrow> Some ((name, t), r2))))"

definition read_alter :: "string \<Rightarrow> (string \<times> string) list option" where
  "read_alter q =
     (case expect ''ALTER TABLE Expressions ADD '' q of
        None \<Rightarrow> None
      | Some r \<Rightarrow>
     (case comma_list column_def r of
        None \<Rightarrow> None
      | Some (cols, rest) \<Rightarrow> if rest = [] then Some cols else None))"

text \<open>
  The row of a sample, \<^verbatim>\<open>UPSERT INTO Expressions(<columns>) VALUES (<key>, <values>)\<close>, is
  read back as its columns, its key and its value texts; a value text is non-empty and runs
  up to the next comma or closing parenthesis.
\<close>

definition value_char :: "char \<Rightarrow> bool" where
  "value_char c \<longleftrightarrow> c \<noteq> CHR '','' \<and> c \<noteq> CHR '')''"

definition is_value :: "string \<Rightarrow> bool" where
  "is_value s \<longleftrightarrow> s \<noteq> [] \<and> list_all value_char s"

definition read_value :: "string \<Rightarrow> (string \<times> string) option" where
  "read_value s =
     (let v = takeWhile value_char s
      in if v = [] then None else Some (v, dropWhile value_char s))"

definition read_row :: "string \<Rightarrow> (string list \<times> string \<times> string list) option" where
  "read_row q =
     (case expect ''UPSERT INTO Expressions('' q of
        None \<Rightarrow> None
      | Some r1 \<Rightarrow>
     (case comma_list read_word r1 of
        None \<Rightarrow> None
      | Some (columns, r2) \<Rightarrow>
     (case expect '') VALUES ('' r2 of
        None \<Rightarrow> None
      | Some r3 \<Rightarrow>
     (case read_literal r3 of
        None \<Rightarrow> None
      | Some (key, r4) \<Rightarrow>
     (case expect '', '' r4 of
        None \<Rightarrow> None
      | Some r5 \<Rightarrow>
     (case comma_list read_value r5 of
        None \<Rightarrow> None
      | Some (vals, r6) \<Rightarrow> if r6 = '')'' then Some (columns, key, vals) else None))))))"

subsection \<open>Concrete backends and a fresh cursor, for evaluating the functions\<close>

definition always_ok :: "unit backend" where
  "always_ok b sql = (None, b)"

definition fresh :: "unit cursor" where
  "fresh = \<lparr>issued = [], db = (), printed = []\<rparr>"

section \<open>Properties\<close>

subsection \<open>Execution, sequencing and the statement texts\<close>

lemma fresh_simps [simp]: "issued fresh = []" "printed fresh = []" "db fresh = ()"
  by (simp_all add: fresh_def)

lemma truthy_simps:
  "truthy None = False" "truthy (Some []) = False" "truthy (Some (x # xs)) = True"
  by (simp_all add: truthy_def)

lemma issued_execute [simp]: "issued (snd (execute bk sql c)) = issued c @ [sql]"
  by (simp add: execute_def split: prod.split option.split)

lemma run_all_Nil [simp]: "run_all bk [] c = (Inr (), c)"
  by (simp add: run_all_def)

lemma run_all_Cons:
  "run_all bk (s # ss) c =
     (case execute bk s c of (Inl e, c') \<Rightarrow> (Inl e, c') | (Inr u, c') \<Rightarrow> run_all bk ss c')"
  unfolding run_all_def by simp

lemma run_all_single [simp]: "run_all bk [s] c = execute bk s c"
  by (simp add: run_all_Cons split: prod.split sum.split)

lemma run_all_append:
  "run_all bk (xs @ ys) c =
     (case run_all bk xs c of (Inl e, c') \<Rightarrow> (Inl e, c') | (Inr u, c') \<Rightarrow> run_all bk ys c')"
  by (induction xs arbitrary: c) (auto simp add: run_all_Cons split: prod.split sum.split)

text \<open>
  A run that returns has issued all its statements; every run has issued a prefix of them.
\<close>

lemma run_all_success_log:
  "fst (run_all bk stmts c) = Inr () \<Longrightarrow> issued (snd (run_all bk stmts c)) = issued c @ stmts"
proof (induction stmts arbitrary: c)
  case Nil
  then show ?case by simp
next
  case (Cons s ss)
  obtain r c' where e: "execute bk s c = (r, c')" by (cases "execute bk s c")
  with Cons.prems obtain u where r: "r = Inr u" by (cases r) (auto simp add: run_all_Cons)
  have "issued c' = issued c @ [s]" using issued_execute [of bk s c] e by simp
  moreover have "fst (run_all bk ss c') = Inr ()" using Cons.prems e r by (simp add: run_all_Cons)
  ultimately show ?case using Cons.IH [of c'] e r by (simp add: run_all_Cons)
qed

lemma run_all_log_prefix:
  "\<exists>n\<le>length stmts. issued (snd (run_all bk stmts c)) = issued c @ take n stmts"
proof (induction stmts arbitrary: c)
  case Nil
  then show ?case by simp
next
  case (Cons s ss)
  obtain r c' where e: "execute bk s c = (r, c')" by (cases "execute bk s c")
  have l: "issued c' = issued c @ [s]" using issued_execute [of bk s c] e by simp
  show ?case
  proof (cases r)
    case (Inl x)
    then have "issued (snd (run_all bk (s # ss) c)) = issued c @ take 1 (s # ss)"
      using e l by (simp add: run_all_Cons)
    then show ?thesis by (intro exI [of _ 1]) simp
  next
    case (Inr u)
    from Cons.IH [of c'] obtain n where n: "n \<le> length ss"
      "issued (snd (run_all bk ss c')) = issued c' @ take n ss" by blast
    then have "issued (snd (run_all bk (s # ss) c)) = issued c @ take (Suc n) (s # ss)"
      using e l Inr by (simp add: run_all_Cons)
    then show ?thesis using n(1) by (intro exI [of _ "Suc n"]) simp
  qed
qed

lemma priv_alter_expressions_table_text:
  "priv_alter_expressions_table bk featureIds = execute bk (alter_text featureIds)"
  by (simp add: priv_alter_expressions_table_def priv_feature_dtype_list_def alter_text_def DTYPE_def)

lemma priv_upsert_feature_None:
  "priv_upsert_feature bk featureId None = execute bk (register_text featureId)"
  by (simp add: priv_upsert_feature_def register_text_def truthy_def)

lemma priv_upsert_feature_text:
  "priv_upsert_feature bk featureId featureName = execute bk (catalog_text featureId featureName)"
  by (cases featureName)
     (simp_all add: priv_upsert_feature_def catalog_text_def register_text_def truthy_def)

lemma priv_upsert_sample_text:
  "priv_upsert_sample bk str sampleId featureIds vals =
     execute bk (row_text str featureIds (sampleId, vals))"
  by (simp add: priv_upsert_sample_def row_text_def)

lemma for_each_map: "for_each body (map f xs) c = for_each (\<lambda>x. body (f x)) xs c"
  by (induction xs arbitrary: c) (auto split: prod.split sum.split)

lemma priv_upsert_features_None:
  "priv_upsert_features bk featureIds None = run_all bk (map register_text featureIds)"
  by (rule ext) (simp add: priv_upsert_features_def truthy_def run_all_def for_each_map priv_upsert_feature_None)

lemma and_then_Inr: "fst (m c) = Inr x \<Longrightarrow> and_then m f c = f x (snd (m c))"
  by (cases "m c") (simp add: and_then_def)

text \<open>
  The rows \<^verbatim>\<open>matrix\<close> returns are the backend's answer to the one statement it issues:
  the module adds nothing to them and takes nothing away.
\<close>

lemma matrix_returns_fetchall:
  "fst (execute bk (matrix_sql sampleIds featureIds) c) = Inr () \<Longrightarrow>
   matrix bk fetchall sampleIds featureIds c =
     (Inr (fetchall (db (snd (execute bk (matrix_sql sampleIds featureIds) c)))),
      snd (execute bk (matrix_sql sampleIds featureIds) c))"
  by (simp add: matrix_def and_then_Inr)

subsection \<open>Reading back what was written\<close>

lemma expect_append [simp]: "expect p (p @ r) = Some r"
  by (induction p) simp_all

lemma expect_Some: "expect p s = Some r \<Longrightarrow> s = p @ r"
  by (induction p s rule: expect.induct) (auto split: if_splits)

lemma join_Cons: "ys \<noteq> [] \<Longrightarrow> join sep (y # ys) = y @ sep @ join sep ys"
  by (cases ys) simp_all

lemma span_stop:
  assumes "list_all P xs" and "ys = [] \<or> \<not> P (hd ys)"
  shows "takeWhile P (xs @ ys) = xs" and "dropWhile P (xs @ ys) = ys"
proof -
  have stop: "takeWhile P ys = []" "dropWhile P ys = ys"
    using assms(2) by (cases ys; simp)+
  from assms(1) have all: "\<And>x. x \<in> set xs \<Longrightarrow> P x"
    by (simp add: list_all_iff)
  show "takeWhile P (xs @ ys) = xs"
    using all stop(1) by (simp add: takeWhile_append2)
  show "dropWhile P (xs @ ys) = ys"
    using all stop(2) by (simp add: dropWhile_append2)
qed

lemma ident_char_simps [simp]:
  "\<not> ident_char CHR '' ''" "\<not> ident_char CHR '',''" "\<not> ident_char CHR ''(''"
  "\<not> ident_char CHR '')''" "\<not> ident_char CHR 0x27"
  by (simp_all add: ident_char_def)

lemma read_word_identifier:
  assumes "is_identifier x" and "t = [] \<or> \<not> ident_char (hd t)"
  shows "read_word (x @ t) = Some (x, t)"
  using assms span_stop [of ident_char x t]
  by (simp add: read_word_def is_identifier_def)

lemma read_literal_quoted:
  assumes "quote_free x"
  shows "read_literal (quoted x @ t) = Some (x, t)"
  using assms span_stop [of "\<lambda>c. c \<noteq> CHR 0x27" x "CHR 0x27 # t"]
  by (simp add: read_literal_def quoted_def quote_free_def)

text \<open>
  A list written with \<open>join\<close> is read back item by item, when every item is read back
  before a separator and before the text that follows the list.
\<close>

lemma comma_list_join:
  assumes "xs \<noteq> []"
    and item: "\<And>x t. x \<in> set xs \<Longrightarrow> t = rest \<or> (\<exists>u. t = '', '' @ u) \<Longrightarrow>
                 item (render x @ t) = Some (x, t)"
    and rest: "expect '', '' rest = None"
  shows "comma_list item (join '', '' (map render xs) @ rest) = Some (xs, rest)"
  using assms(1) item
proof (induction xs rule: list_nonempty_induct)
  case (single x)
  have "item (render x @ rest) = Some (x, rest)"
    by (rule single) simp_all
  then show ?case
    using rest by (subst comma_list.simps) simp
next
  case (cons x xs)
  let ?tail = "join '', '' (map render xs) @ rest"
  have shape: "join '', '' (map render (x # xs)) @ rest = render x @ '', '' @ ?tail"
    using cons.hyps by (simp add: join_Cons)
  have head: "item (render x @ '', '' @ ?tail) = Some (x, '', '' @ ?tail)"
    by (rule cons.prems) auto
  have tail: "comma_list item ?tail = Some (xs, rest)"
    by (rule cons.IH) (rule cons.prems, simp_all)
  have sep: "expect '', '' ('', '' @ ?tail) = Some ?tail"
    by (rule expect_append)
  show ?case
    unfolding shape
    by (subst comma_list.simps) (simp only: head sep tail option.case prod.case, simp)
qed

lemma read_value_text:
  assumes "is_value x" and "t = [] \<or> \<not> value_char (hd t)"
  shows "read_value (x @ t) = Some (x, t)"
  using assms span_stop [of value_char x t]
  by (simp add: read_value_def is_value_def)

lemma comma_list_None: "item s = None \<Longrightarrow> comma_list item s = None"
  by (subst comma_list.simps) simp

lemma comma_list_more:
  "item s = Some (x, '', '' @ r') \<Longrightarrow> length r' < length s \<Longrightarrow>
   comma_list item s =
     (case comma_list item r' of None \<Rightarrow> None | Some (xs, r'') \<Rightarrow> Some (x # xs, r''))"
  by (subst comma_list.simps) simp

lemma column_def_pair:
  assumes "is_identifier f" and "t = [] \<or> (\<exists>u. t = '', '' @ u)"
  shows "column_def (f @ '' '' @ DTYPE @ t) = Some ((f, DTYPE), t)"
proof -
  have name: "read_word (f @ '' '' @ DTYPE @ t) = Some (f, '' '' @ DTYPE @ t)"
    using assms(1) by (rule read_word_identifier) simp
  have "is_identifier ''DECIMAL''"
    by (simp add: is_identifier_def ident_char_def)
  then have "read_word (''DECIMAL'' @ ''(10, 6)'' @ t) = Some (''DECIMAL'', ''(10, 6)'' @ t)"
    by (rule read_word_identifier) simp
  then have "column_type (DTYPE @ t) = Some (DTYPE, t)"
    by (simp add: column_type_def DTYPE_def)
  then show ?thesis
    using name by (simp add: column_def_def)
qed

lemma alter_reads_back:
  assumes "featureIds \<noteq> []" and "list_all is_identifier featureIds"
  shows "read_alter (alter_text featureIds) = Some (map (\<lambda>f. (f, DTYPE)) featureIds)"
proof -
  let ?pairs = "map (\<lambda>f. (f, DTYPE)) featureIds"
  have shape: "alter_text featureIds =
      ''ALTER TABLE Expressions ADD '' @ join '', '' (map (\<lambda>(f, t). f @ '' '' @ t) ?pairs) @ []"
    by (simp add: alter_text_def comp_def DTYPE_def)
  have "comma_list column_def (join '', '' (map (\<lambda>(f, t). f @ '' '' @ t) ?pairs) @ []) = Some (?pairs, [])"
  proof (rule comma_list_join)
    fix x t
    assume "x \<in> set ?pairs"
    then obtain f where x: "x = (f, DTYPE)" and "is_identifier f"
      using assms(2) by (auto simp add: list_all_iff)
    moreover assume "t = [] \<or> (\<exists>u. t = '', '' @ u)"
    ultimately show "column_def ((case x of (f, t) \<Rightarrow> f @ '' '' @ t) @ t) = Some (x, t)"
      using column_def_pair [of f t] by simp
  qed (simp_all add: assms(1))
  moreover have "expect ''ALTER TABLE Expressions ADD '' (alter_text featureIds) =
      Some (join '', '' (map (\<lambda>(f, t). f @ '' '' @ t) ?pairs) @ [])"
    unfolding shape by (rule expect_append)
  ultimately show ?thesis
    unfolding read_alter_def by (simp only: option.case prod.case) simp
qed

text \<open>
  What the readers accept ends the way its last item ends: an accepted projection ends with
  a quoted literal and the closing parenthesis.
\<close>

lemma read_word_Some: "read_word s = Some (x, r) \<Longrightarrow> \<exists>p. s = p @ [] @ r"
  by (auto simp add: read_word_def Let_def split: if_splits)
     (metis takeWhile_dropWhile_id)

lemma read_literal_Some:
  assumes "read_literal s = Some (x, r)"
  shows "\<exists>p. s = p @ [CHR 0x27] @ r"
proof -
  from assms obtain s1 q' where s: "s = CHR 0x27 # s1"
    and d: "dropWhile (\<lambda>c. c \<noteq> CHR 0x27) s1 = q' # r"
    by (auto simp add: read_literal_def split: list.splits if_splits)
  from d have "\<not> (q' \<noteq> CHR 0x27)"
    using hd_dropWhile [of "\<lambda>c. c \<noteq> CHR 0x27" s1] by simp
  then have "s1 = takeWhile (\<lambda>c. c \<noteq> CHR 0x27) s1 @ CHR 0x27 # r"
    using d takeWhile_dropWhile_id [of "\<lambda>c. c \<noteq> CHR 0x27" s1] by simp
  then have "s = (CHR 0x27 # takeWhile (\<lambda>c. c \<noteq> CHR 0x27) s1) @ [CHR 0x27] @ r"
    using s by simp
  then show ?thesis by blast
qed

lemma comma_list_ends:
  assumes "\<And>s x r. item s = Some (x, r) \<Longrightarrow> \<exists>p. s = p @ e @ r"
    and "comma_list item s = Some (xs, r)"
  shows "\<exists>p. s = p @ e @ r"
  using assms
proof (induction item s arbitrary: xs r rule: comma_list.induct)
  case (1 item s)
  from "1.prems"(2) obtain x r0 where head: "item s = Some (x, r0)"
    by (subst (asm) comma_list.simps) (auto split: option.splits)
  from "1.prems"(1) [OF head] obtain p where p: "s = p @ e @ r0" by blast
  show ?case
  proof (cases "expect '', '' r0")
    case None
    with "1.prems"(2) head have "r = r0"
      by (subst (asm) comma_list.simps) simp
    with p show ?thesis by blast
  next
    case (Some r')
    with "1.prems"(2) head obtain xs' where shorter: "length r' < length s"
      and tail: "comma_list item r' = Some (xs', r)"
      by (subst (asm) comma_list.simps) (auto split: option.splits if_splits)
    have "\<exists>p'. r' = p' @ e @ r"
      by (rule "1.IH" [OF head refl Some shorter _ tail]) (rule "1.prems"(1))
    then obtain p' where "r' = p' @ e @ r" by blast
    moreover from Some have "r0 = '', '' @ r'" by (rule expect_Some)
    ultimately have "s = (p @ e @ '', '' @ p') @ e @ r" using p by simp
    then show ?thesis by blast
  qed
qed

lemma read_projection_ends:
  assumes "read_projection q = Some result"
  shows "\<exists>p. q = p @ [CHR 0x27] @ '')''"
proof -
  from assms obtain r1 where e1: "expect ''SELECT '' q = Some r1"
    by (cases "expect ''SELECT '' q") (simp_all add: read_projection_def)
  with assms obtain columns r2 where c1: "comma_list read_word r1 = Some (columns, r2)"
    by (cases "comma_list read_word r1") (auto simp add: read_projection_def)
  with assms e1 obtain r3 where
    e2: "expect '' from Expressions WHERE sampleId IN('' r2 = Some r3"
    by (cases "expect '' from Expressions WHERE sampleId IN('' r2")
       (simp_all add: read_projection_def)
  with assms e1 c1 obtain keys r4 where c2: "comma_list read_literal r3 = Some (keys, r4)"
    by (cases "comma_list read_literal r3") (auto simp add: read_projection_def)
  have r4: "r4 = '')''"
    using assms e1 c1 e2 c2 by (simp add: read_projection_def split: if_splits)
  have q: "q = ''SELECT '' @ r1" using e1 by (rule expect_Some)
  have r2: "r2 = '' from Expressions WHERE sampleId IN('' @ r3" using e2 by (rule expect_Some)
  have "\<exists>p. r1 = p @ [] @ r2"
    by (rule comma_list_ends [OF _ c1]) (rule read_word_Some)
  then obtain p1 where r1: "r1 = p1 @ r2" by (elim exE) simp
  have "\<exists>p. r3 = p @ [CHR 0x27] @ r4"
    by (rule comma_list_ends [OF _ c2]) (rule read_literal_Some)
  then obtain p3 where r3: "r3 = p3 @ [CHR 0x27] @ '')''" unfolding r4 by (elim exE)
  have "q = (''SELECT '' @ p1 @ '' from Expressions WHERE sampleId IN('' @ p3) @
      [CHR 0x27] @ '')''"
    unfolding q r1 r2 r3 by simp
  then show ?thesis
    by (rule exI [of _ "''SELECT '' @ p1 @ '' from Expressions WHERE sampleId IN('' @ p3"])
qed

lemma read_projection_no_keys: "read_projection (matrix_sql [] featureIds) = None"
proof (cases "read_projection (matrix_sql [] featureIds)")
  case None
  then show ?thesis .
next
  case (Some result)
  then obtain p where "matrix_sql [] featureIds = p @ [CHR 0x27] @ '')''"
    using read_projection_ends by blast
  moreover have "matrix_sql [] featureIds =
      (''SELECT sampleId, '' @ join '', '' featureIds @ '' from Expressions WHERE sampleId IN'') @
      [CHR ''(''] @ '')''"
    by (simp add: matrix_sql_def)
  ultimately have "p @ [CHR 0x27, CHR '')''] =
      (''SELECT sampleId, '' @ join '', '' featureIds @ '' from Expressions WHERE sampleId IN'') @
      [CHR ''('', CHR '')'']"
    by simp
  then have "[CHR 0x27, CHR '')''] = [CHR ''('', CHR '')'']"
    by (subst (asm) append_eq_append_conv) simp_all
  then show ?thesis by simp
qed

lemma read_projection_no_columns: "read_projection (matrix_sql sampleIds []) = None"
proof -
  let ?from = "'' from Expressions WHERE sampleId IN('' @ join '', '' (map quoted sampleIds) @ '')''"
  have shape: "matrix_sql sampleIds [] = ''SELECT '' @ ''sampleId'' @ '', '' @ ?from"
    by (simp add: matrix_sql_def)
  have "is_identifier ''sampleId''"
    by (simp add: is_identifier_def ident_char_def)
  then have "read_word (''sampleId'' @ '', '' @ ?from) = Some (''sampleId'', '', '' @ ?from)"
    by (rule read_word_identifier) simp
  then have "comma_list read_word (''sampleId'' @ '', '' @ ?from) =
      (case comma_list read_word ?from of None \<Rightarrow> None
       | Some (xs, r'') \<Rightarrow> Some (''sampleId'' # xs, r''))"
    by (rule comma_list_more) simp
  moreover have "read_word ?from = None"
    by (simp add: read_word_def)
  then have "comma_list read_word ?from = None"
    by (rule comma_list_None)
  moreover have "expect ''SELECT '' (matrix_sql sampleIds []) = Some (''sampleId'' @ '', '' @ ?from)"
    unfolding shape by (rule expect_append)
  ultimately show ?thesis
    unfolding read_projection_def by (simp only: option.case)
qed

lemma ids_g: "list_all is_identifier [''g1'', ''g2'']"
  by (simp add: is_identifier_def ident_char_def)

subsection \<open>Registering features: the length check\<close>

text \<open>
  Claim C2, as the code has it. \<^verbatim>\<open>upsert_features(cursor, featureIds, featureNames)\<close>
  with a non-empty \<open>featureNames\<close> whose length differs from that of \<open>featureIds\<close> fails
  and writes nothing to the catalog: the catalog step \<^verbatim>\<open>_upsert_features\<close> raises
  \<^verbatim>\<open>Exception("list of featureIds and featureNames did not match")\<close> with the cursor
  untouched. The column addition comes before the length check: it is the one statement the
  call issues, and the call is that statement followed by the exception (the backend's own
  error, when it refuses the statement). An empty \<open>featureNames\<close> is not checked at all: it
  is treated as an absent one.
\<close>

theorem upsert_features_arity_mismatch:
  assumes "featureNames \<noteq> []" and "length featureIds \<noteq> length featureNames"
  shows "priv_upsert_features bk featureIds (Some featureNames) c = (Inl (Exception arity_message), c) \<and>
         upsert_features bk featureIds (Some featureNames) c =
           and_then (execute bk (alter_text featureIds)) (\<lambda>_. raises (Exception arity_message)) c \<and>
         fst (upsert_features bk featureIds (Some featureNames) c) \<noteq> Inr () \<and>
         issued (snd (upsert_features bk featureIds (Some featureNames) c)) =
           issued c @ [alter_text featureIds] \<and>
         upsert_features bk featureIds (Some []) c = upsert_features bk featureIds None c"
proof -
  have inner: "priv_upsert_features bk featureIds (Some featureNames) =
      raises (Exception arity_message)"
    using assms by (simp add: priv_upsert_features_def truthy_def arity_message_def)
  have outer: "upsert_features bk featureIds (Some featureNames) c =
      and_then (execute bk (alter_text featureIds)) (\<lambda>_. raises (Exception arity_message)) c"
    by (simp add: upsert_features_def inner priv_alter_expressions_table_text)
  obtain r c' where e: "execute bk (alter_text featureIds) c = (r, c')"
    by (cases "execute bk (alter_text featureIds) c")
  then have log: "issued c' = issued c @ [alter_text featureIds]"
    using issued_execute [of bk "alter_text featureIds" c] by simp
  have empty: "upsert_features bk featureIds (Some []) c = upsert_features bk featureIds None c"
    by (simp add: upsert_features_def priv_upsert_features_def truthy_def)
  show ?thesis
    using e log empty by (cases r) (simp_all add: outer inner raises_def and_then_def)
qed

text \<open>
  The theorem at \<^verbatim>\<open>upsert_features(["f1", "f2"], ["only one name"])\<close> on a backend that
  accepts every statement.
\<close>

theorem upsert_features_arity_mismatch_witness:
  "upsert_features always_ok [''f1'', ''f2''] (Some [''only one name'']) fresh =
     (Inl (Exception ''list of featureIds and featureNames did not match''),
      \<lparr>issued = [''ALTER TABLE Expressions ADD f1 DECIMAL(10, 6), f2 DECIMAL(10, 6)''],
       db = (), printed = []\<rparr>)"
proof -
  have "[''only one name''] \<noteq> []" and "length [''f1'', ''f2''] \<noteq> length [''only one name'']"
    by simp_all
  from upsert_features_arity_mismatch [OF this, of always_ok fresh, THEN conjunct2, THEN conjunct1]
  show ?thesis
    by (simp add: and_then_def execute_def always_ok_def raises_def alter_text_def
        arity_message_def fresh_def)
qed

text \<open>
  Claim C2 as stated fails: the call above has issued a statement to the backend before it
  fails, and \<^verbatim>\<open>upsert_features(["f1"], [])\<close>, whose \<open>featureNames\<close> is provided with another
  length, returns normally after writing \<open>f1\<close> to the catalog.
\<close>

theorem upsert_features_arity_mismatch_counterexample:
  "issued (snd (upsert_features always_ok [''f1'', ''f2''] (Some [''only one name'']) fresh)) =
     [''ALTER TABLE Expressions ADD f1 DECIMAL(10, 6), f2 DECIMAL(10, 6)''] \<and>
   upsert_features always_ok [''f1''] (Some []) fresh =
     (Inr (),
      \<lparr>issued = [''ALTER TABLE Expressions ADD f1 DECIMAL(10, 6)'',
                 ''UPSERT INTO Features(featureId) VALUES ('f1')''],
       db = (), printed = []\<rparr>)"
  by (simp add: upsert_features_def priv_upsert_features_def priv_upsert_feature_def
      priv_alter_expressions_table_def priv_feature_dtype_list_def DTYPE_def truthy_def
      and_then_def raises_def execute_def always_ok_def quoted_def fresh_def)

text \<open>
  \<^verbatim>\<open>upsert_feature(cursor, featureId, featureName)\<close> is the column addition for the one
  feature followed by its catalog entry.
\<close>

theorem upsert_feature_statements:
  "upsert_feature bk featureId featureName c =
     run_all bk [alter_text [featureId], catalog_text featureId featureName] c"
  by (simp add: upsert_feature_def priv_alter_expressions_table_text priv_upsert_feature_text
      and_then_def run_all_Cons split: prod.split sum.split)

theorem upsert_feature_statements_witness:
  "issued (snd (upsert_feature always_ok ''g1'' (Some ''gene one'') fresh)) =
     [''ALTER TABLE Expressions ADD g1 DECIMAL(10, 6)'',
      ''UPSERT INTO Features(featureId, featureName) VALUES ('g1', 'gene one')'']"
  unfolding upsert_feature_statements [of always_ok "''g1''" "Some ''gene one''" fresh]
  by (simp add: run_all_Cons execute_def always_ok_def alter_text_def catalog_text_def quoted_def)

text \<open>
  \<^verbatim>\<open>upsert_features\<close> with a non-empty \<open>featureNames\<close> of the length of \<open>featureIds\<close> is
  the column addition followed by the catalog entries, each featureId with the name at its
  position.
\<close>

theorem upsert_features_named_statements:
  assumes "featureNames \<noteq> []" and "length featureIds = length featureNames"
  shows "upsert_features bk featureIds (Some featureNames) c =
           run_all bk (alter_text featureIds #
             map (\<lambda>(featureId, featureName). catalog_text featureId (Some featureName))
               (zip featureIds featureNames)) c"
proof -
  have "priv_upsert_features bk featureIds (Some featureNames) =
      run_all bk (map (\<lambda>(featureId, featureName). catalog_text featureId (Some featureName))
               (zip featureIds featureNames))"
    using assms
    by (intro ext)
       (simp add: priv_upsert_features_def truthy_def run_all_def for_each_map
          priv_upsert_feature_text case_prod_unfold)
  then show ?thesis
    by (simp add: upsert_features_def priv_alter_expressions_table_text and_then_def run_all_Cons
        split: prod.split sum.split)
qed

theorem upsert_features_named_statements_witness:
  "issued (snd (upsert_features always_ok [''g1'', ''g2''] (Some [''gene one'', ''gene two'']) fresh)) =
     [''ALTER TABLE Expressions ADD g1 DECIMAL(10, 6), g2 DECIMAL(10, 6)'',
      ''UPSERT INTO Features(featureId, featureName) VALUES ('g1', 'gene one')'',
      ''UPSERT INTO Features(featureId, featureName) VALUES ('g2', 'gene two')'']"
proof -
  have "[''gene one'', ''gene two''] \<noteq> []"
    and "length [''g1'', ''g2''] = length [''gene one'', ''gene two'']"
    by simp_all
  from upsert_features_named_statements [OF this, of always_ok fresh] show ?thesis
    by (simp add: run_all_Cons execute_def always_ok_def alter_text_def catalog_text_def quoted_def)
qed

subsection \<open>The projection query\<close>

text \<open>
  Claim C3, as the code has it. For every non-empty list of featureIds that are names and
  every non-empty list of sampleIds that contain no single quote, the query of
  \<^verbatim>\<open>matrix_sql\<close> is a projection whose columns are \<open>sampleId\<close> followed by the featureIds
  in the caller's order, and whose key list is the sampleIds given.
\<close>

theorem matrix_sql_projection:
  assumes "featureIds \<noteq> []" and "list_all is_identifier featureIds"
    and "sampleIds \<noteq> []" and "list_all quote_free sampleIds"
  shows "read_projection (matrix_sql sampleIds featureIds) =
           Some (''sampleId'' # featureIds, sampleIds)"
proof -
  let ?keys = "join '', '' (map quoted sampleIds) @ '')''"
  let ?from = "'' from Expressions WHERE sampleId IN('' @ ?keys"
  have shape: "matrix_sql sampleIds featureIds =
      ''SELECT '' @ join '', '' (map (\<lambda>x. x) (''sampleId'' # featureIds)) @ ?from"
    using assms(1) by (simp add: matrix_sql_def join_Cons)
  have key_column: "is_identifier ''sampleId''"
    by (simp add: is_identifier_def ident_char_def)
  have columns: "comma_list read_word (join '', '' (map (\<lambda>x. x) (''sampleId'' # featureIds)) @ ?from) =
      Some (''sampleId'' # featureIds, ?from)"
  proof (rule comma_list_join)
    fix x t
    assume "x \<in> set (''sampleId'' # featureIds)"
    then have "is_identifier x"
      using assms(2) key_column by (auto simp add: list_all_iff)
    moreover assume "t = ?from \<or> (\<exists>u. t = '', '' @ u)"
    then have "t = [] \<or> \<not> ident_char (hd t)" by auto
    ultimately show "read_word (x @ t) = Some (x, t)" by (rule read_word_identifier)
  qed simp_all
  have keys: "comma_list read_literal ?keys = Some (sampleIds, '')'')"
  proof (rule comma_list_join)
    fix x t
    assume "x \<in> set sampleIds"
    then have "quote_free x" using assms(4) by (simp add: list_all_iff)
    then show "read_literal (quoted x @ t) = Some (x, t)" by (rule read_literal_quoted)
  qed (simp_all add: assms(3))
  have "expect ''SELECT '' (matrix_sql sampleIds featureIds) =
      Some (join '', '' (map (\<lambda>x. x) (''sampleId'' # featureIds)) @ ?from)"
    unfolding shape by (rule expect_append)
  moreover have "expect '' from Expressions WHERE sampleId IN('' ?from = Some ?keys"
    by (rule expect_append)
  ultimately show ?thesis
    unfolding read_projection_def by (simp only: columns keys option.case prod.case) simp
qed

text \<open>
  The theorem at two samples and two features, with the text of the query.
\<close>

theorem matrix_sql_projection_witness:
  "matrix_sql [''sampleA'', ''sampleB''] [''g1'', ''g2''] =
     ''SELECT sampleId, g1, g2 from Expressions WHERE sampleId IN('sampleA', 'sampleB')'' \<and>
   read_projection (matrix_sql [''sampleA'', ''sampleB''] [''g1'', ''g2'']) =
     Some ([''sampleId'', ''g1'', ''g2''], [''sampleA'', ''sampleB''])"
proof -
  have "list_all quote_free [''sampleA'', ''sampleB'']"
    by (simp add: quote_free_def)
  from matrix_sql_projection [OF _ ids_g _ this] have
    "read_projection (matrix_sql [''sampleA'', ''sampleB''] [''g1'', ''g2'']) =
       Some ([''sampleId'', ''g1'', ''g2''], [''sampleA'', ''sampleB''])"
    by simp
  moreover have "matrix_sql [''sampleA'', ''sampleB''] [''g1'', ''g2''] =
     ''SELECT sampleId, g1, g2 from Expressions WHERE sampleId IN('sampleA', 'sampleB')''"
    by (simp add: matrix_sql_def quoted_def)
  ultimately show ?thesis by (rule conjI [rotated])
qed

text \<open>
  Claim C3 as stated, for every list, fails: the single sampleId \<^verbatim>\<open>a', 'b\<close> gives a query
  that restricts the rows to the two keys \<open>a\<close> and \<open>b\<close>; with no featureId the text is not
  a projection of the key column, and with no sampleId it is not a projection restricted to
  the empty set.
\<close>

theorem matrix_sql_projection_counterexample:
  "matrix_sql [''a', 'b''] [''f1''] =
     ''SELECT sampleId, f1 from Expressions WHERE sampleId IN('a', 'b')'' \<and>
   read_projection (matrix_sql [''a', 'b''] [''f1'']) = Some ([''sampleId'', ''f1''], [''a'', ''b'']) \<and>
   read_projection (matrix_sql [''s1''] []) \<noteq> Some ([''sampleId''], [''s1'']) \<and>
   read_projection (matrix_sql [] [''f1'']) \<noteq> Some ([''sampleId'', ''f1''], [])"
proof -
  have "matrix_sql [''a', 'b''] [''f1''] =
     ''SELECT sampleId, f1 from Expressions WHERE sampleId IN('a', 'b')''"
    by (simp add: matrix_sql_def quoted_def)
  moreover have "read_projection (matrix_sql [''a', 'b''] [''f1'']) =
      Some ([''sampleId'', ''f1''], [''a'', ''b''])"
    by code_simp
  moreover have "read_projection (matrix_sql [''s1''] []) \<noteq> Some ([''sampleId''], [''s1''])"
    by (simp add: read_projection_no_columns)
  moreover have "read_projection (matrix_sql [] [''f1'']) \<noteq> Some ([''sampleId'', ''f1''], [])"
    by (simp add: read_projection_no_keys)
  ultimately show ?thesis by (intro conjI)
qed

text \<open>
  Claim C4, as the code has it. \<^verbatim>\<open>matrix_sql\<close> is a total function of its two lists, so
  it builds a text for every input and never raises. With \<open>featureIds\<close> empty the text is
  \<^verbatim>\<open>SELECT sampleId,  from Expressions WHERE sampleId IN(...)\<close>, whose select list ends in
  a comma with no column after it; with \<open>sampleIds\<close> empty it is
  \<^verbatim>\<open>SELECT sampleId, ... from Expressions WHERE sampleId IN()\<close>, whose key list is empty.
  Neither text is a well-formed projection.
\<close>

theorem matrix_sql_empty_inputs:
  "matrix_sql sampleIds [] =
     ''SELECT sampleId,  from Expressions WHERE sampleId IN('' @
       join '', '' (map quoted sampleIds) @ '')'' \<and>
   matrix_sql [] featureIds =
     ''SELECT sampleId, '' @ join '', '' featureIds @ '' from Expressions WHERE sampleId IN()'' \<and>
   read_projection (matrix_sql sampleIds []) = None \<and>
   read_projection (matrix_sql [] featureIds) = None"
  by (simp add: read_projection_no_columns read_projection_no_keys) (simp add: matrix_sql_def)

text \<open>
  The theorem at \<^verbatim>\<open>matrix_sql(["s1"], [])\<close> and \<^verbatim>\<open>matrix_sql([], ["f1"])\<close>, with the
  two texts.
\<close>

theorem matrix_sql_empty_inputs_witness:
  "matrix_sql [''s1''] [] = ''SELECT sampleId,  from Expressions WHERE sampleId IN('s1')'' \<and>
   matrix_sql [] [''f1''] = ''SELECT sampleId, f1 from Expressions WHERE sampleId IN()'' \<and>
   read_projection ''SELECT sampleId,  from Expressions WHERE sampleId IN('s1')'' = None \<and>
   read_projection ''SELECT sampleId, f1 from Expressions WHERE sampleId IN()'' = None"
proof -
  note t = matrix_sql_empty_inputs [of "[''s1'']" "[''f1'']"]
  have a: "matrix_sql [''s1''] [] = ''SELECT sampleId,  from Expressions WHERE sampleId IN('s1')''"
    using t [THEN conjunct1] by (simp add: quoted_def)
  have b: "matrix_sql [] [''f1''] = ''SELECT sampleId, f1 from Expressions WHERE sampleId IN()''"
    using t [THEN conjunct2, THEN conjunct1] by simp
  show ?thesis
    using t [THEN conjunct2, THEN conjunct2] unfolding a b by (simp add: a b)
qed

text \<open>
  Claim C4 as stated fails at the two inputs the specification names: neither
  \<^verbatim>\<open>matrix_sql([], ["f1"])\<close> nor \<^verbatim>\<open>matrix_sql(["s1"], [])\<close> is a well-formed query.
\<close>

theorem matrix_sql_empty_inputs_counterexample:
  "read_projection (matrix_sql [] [''f1'']) = None \<and>
   read_projection (matrix_sql [''s1''] []) = None"
  by code_simp

subsection \<open>Schema evolution\<close>

text \<open>
  Claim C5. \<^verbatim>\<open>_alter_expressions_table(cursor, featureIds)\<close> issues exactly one
  statement, \<^verbatim>\<open>ALTER TABLE Expressions ADD\<close> followed by the comma-separated pairs
  \<^verbatim>\<open><featureId> DECIMAL(10, 6)\<close>, whatever the backend answers. For a non-empty list of
  featureIds (names, as the column names of the row store are) the statement reads back as
  one pair per featureId, in order, each with the same type \<^verbatim>\<open>DECIMAL(10, 6)\<close>.
\<close>

theorem alter_expressions_table_statement:
  "priv_alter_expressions_table bk featureIds c = execute bk (alter_text featureIds) c \<and>
   issued (snd (priv_alter_expressions_table bk featureIds c)) = issued c @ [alter_text featureIds] \<and>
   (featureIds \<noteq> [] \<and> list_all is_identifier featureIds \<longrightarrow>
      read_alter (alter_text featureIds) = Some (map (\<lambda>f. (f, ''DECIMAL(10, 6)'')) featureIds))"
  using alter_reads_back [of featureIds]
  by (simp add: priv_alter_expressions_table_text DTYPE_def)

text \<open>
  The theorem at the features \<open>g1\<close> and \<open>g2\<close>.
\<close>

theorem alter_expressions_table_statement_witness:
  "issued (snd (priv_alter_expressions_table always_ok [''g1'', ''g2''] fresh)) =
     [''ALTER TABLE Expressions ADD g1 DECIMAL(10, 6), g2 DECIMAL(10, 6)''] \<and>
   read_alter ''ALTER TABLE Expressions ADD g1 DECIMAL(10, 6), g2 DECIMAL(10, 6)'' =
     Some [(''g1'', ''DECIMAL(10, 6)''), (''g2'', ''DECIMAL(10, 6)'')]"
proof -
  note t = alter_expressions_table_statement [of always_ok "[''g1'', ''g2'']" fresh]
  have shape: "alter_text [''g1'', ''g2''] =
      ''ALTER TABLE Expressions ADD g1 DECIMAL(10, 6), g2 DECIMAL(10, 6)''"
    by (simp add: alter_text_def)
  have "[''g1'', ''g2''] \<noteq> [] \<and> list_all is_identifier [''g1'', ''g2'']"
    using ids_g by simp
  with t [THEN conjunct2, THEN conjunct2] have
    "read_alter (alter_text [''g1'', ''g2'']) =
       Some (map (\<lambda>f. (f, ''DECIMAL(10, 6)'')) [''g1'', ''g2''])"
    by (rule mp)
  moreover note t [THEN conjunct2, THEN conjunct1]
  ultimately show ?thesis
    unfolding shape by simp
qed

subsection \<open>Upserting samples\<close>

lemma upsert_sample_run_all:
  "upsert_sample bk str sampleId featureIds vals True c =
     run_all bk (alter_text featureIds # map register_text featureIds @
                 [row_text str featureIds (sampleId, vals)]) c"
  "upsert_sample bk str sampleId featureIds vals False c =
     run_all bk [row_text str featureIds (sampleId, vals)] c"
  by (simp_all add: upsert_sample_def priv_alter_expressions_table_text priv_upsert_features_None
      priv_upsert_sample_text and_then_def returns_def run_all_Cons run_all_append
      split: prod.split sum.split)

lemma rows_loop:
  "n \<le> length vectors \<Longrightarrow>
   for_each
     (\<lambda>(k, sampleId).
        if k < length vectors
        then priv_upsert_sample bk str sampleId featureIds (vectors ! k)
        else raises IndexError)
     (enumerate n sampleIds) c =
   and_then (run_all bk (map (row_text str featureIds) (zip sampleIds (drop n vectors))))
     (\<lambda>_. if length vectors < n + length sampleIds then raises IndexError else returns ()) c"
proof (induction sampleIds arbitrary: n c)
  case Nil
  then show ?case by (simp add: and_then_def returns_def)
next
  case (Cons sid rest)
  show ?case
  proof (cases "n < length vectors")
    case True
    then have d: "drop n vectors = vectors ! n # drop (Suc n) vectors"
      by (simp add: Cons_nth_drop_Suc)
    show ?thesis
      using True Cons.IH [of "Suc n"]
      by (simp add: d Suc_le_eq priv_upsert_sample_text run_all_Cons and_then_def
          split: prod.split sum.split)
  next
    case False
    with Cons.prems show ?thesis by (simp add: and_then_def raises_def)
  qed
qed

lemma upsert_samples_run_all:
  "upsert_samples bk str sampleIds featureIds vectors c =
     and_then
       (run_all bk (alter_text featureIds # map register_text featureIds @
                    map (row_text str featureIds) (zip sampleIds vectors)))
       (\<lambda>_. if length vectors < length sampleIds then raises IndexError else returns ()) c"
  using rows_loop [of 0 vectors bk str featureIds sampleIds]
  by (simp add: upsert_samples_def priv_alter_expressions_table_text priv_upsert_features_None
      and_then_def run_all_Cons run_all_append split: prod.split sum.split)

lemma zip_by_index:
  "length xs \<le> length ys \<Longrightarrow> zip xs ys = map (\<lambda>k. (xs ! k, ys ! k)) [0..<length xs]"
  by (rule nth_equalityI) simp_all

text \<open>
  The row statement of \<^verbatim>\<open>_upsert_sample\<close> reads back as the columns \<open>sampleId\<close>,
  \<open>featureIds\<close> and the values \<open>sampleId\<close>, \<open>str(values)\<close> in the same positional order,
  for featureIds that are names, a sampleId without a single quote and value texts without
  a comma or a closing parenthesis.
\<close>

theorem row_statement_reads_back:
  assumes "featureIds \<noteq> []" and "list_all is_identifier featureIds"
    and "quote_free sampleId"
    and "vals \<noteq> []" and "list_all (\<lambda>v. is_value (str v)) vals"
  shows "priv_upsert_sample bk str sampleId featureIds vals c =
           execute bk (row_text str featureIds (sampleId, vals)) c \<and>
         read_row (row_text str featureIds (sampleId, vals)) =
           Some (''sampleId'' # featureIds, sampleId, map str vals)"
proof -
  let ?vals = "join '', '' (map (\<lambda>x. x) (map str vals)) @ '')''"
  let ?key = "quoted sampleId @ '', '' @ ?vals"
  let ?into = "'') VALUES ('' @ ?key"
  let ?columns = "join '', '' (map (\<lambda>x. x) (''sampleId'' # featureIds)) @ ?into"
  have shape: "row_text str featureIds (sampleId, vals) = ''UPSERT INTO Expressions('' @ ?columns"
    using assms(1) by (simp add: row_text_def join_Cons)
  have key_column: "is_identifier ''sampleId''"
    by (simp add: is_identifier_def ident_char_def)
  have columns: "comma_list read_word ?columns = Some (''sampleId'' # featureIds, ?into)"
  proof (rule comma_list_join)
    fix x t
    assume "x \<in> set (''sampleId'' # featureIds)"
    then have "is_identifier x"
      using assms(2) key_column by (auto simp add: list_all_iff)
    moreover assume "t = ?into \<or> (\<exists>u. t = '', '' @ u)"
    then have "t = [] \<or> \<not> ident_char (hd t)" by auto
    ultimately show "read_word (x @ t) = Some (x, t)" by (rule read_word_identifier)
  qed simp_all
  have key: "read_literal ?key = Some (sampleId, '', '' @ ?vals)"
    using assms(3) by (rule read_literal_quoted)
  have vals: "comma_list read_value ?vals = Some (map str vals, '')'')"
  proof (rule comma_list_join)
    fix x t
    assume "x \<in> set (map str vals)"
    then have "is_value x"
      using assms(5) by (auto simp add: list_all_iff)
    moreover assume "t = '')'' \<or> (\<exists>u. t = '', '' @ u)"
    then have "t = [] \<or> \<not> value_char (hd t)" by (auto simp add: value_char_def)
    ultimately show "read_value (x @ t) = Some (x, t)" by (rule read_value_text)
  qed (simp_all add: assms(4))
  have "expect ''UPSERT INTO Expressions('' (row_text str featureIds (sampleId, vals)) = Some ?columns"
    unfolding shape by (rule expect_append)
  moreover have "expect '') VALUES ('' ?into = Some ?key"
    by (rule expect_append)
  moreover have "expect '', '' ('', '' @ ?vals) = Some ?vals"
    by (rule expect_append)
  ultimately have "read_row (row_text str featureIds (sampleId, vals)) =
      Some (''sampleId'' # featureIds, sampleId, map str vals)"
    unfolding read_row_def by (simp only: columns key vals option.case prod.case) simp
  then show ?thesis
    by (simp add: priv_upsert_sample_text)
qed

theorem row_statement_reads_back_witness:
  "issued (snd (priv_upsert_sample always_ok (\<lambda>v. v) ''sampleA'' [''g1'', ''g2''] [''3.5'', ''0''] fresh)) =
     [''UPSERT INTO Expressions(sampleId, g1, g2) VALUES ('sampleA', 3.5, 0)''] \<and>
   read_row (row_text (\<lambda>v. v) [''g1'', ''g2''] (''sampleA'', [''3.5'', ''0''])) =
     Some ([''sampleId'', ''g1'', ''g2''], ''sampleA'', [''3.5'', ''0''])"
proof -
  have "quote_free ''sampleA''"
    by (simp add: quote_free_def)
  moreover have "list_all (\<lambda>v. is_value v) [''3.5'', ''0'']"
    by (simp add: is_value_def value_char_def)
  ultimately have both:
    "priv_upsert_sample always_ok (\<lambda>v. v) ''sampleA'' [''g1'', ''g2''] [''3.5'', ''0''] fresh =
       execute always_ok (row_text (\<lambda>v. v) [''g1'', ''g2''] (''sampleA'', [''3.5'', ''0''])) fresh \<and>
     read_row (row_text (\<lambda>v. v) [''g1'', ''g2''] (''sampleA'', [''3.5'', ''0''])) =
       Some ([''sampleId'', ''g1'', ''g2''], ''sampleA'', map (\<lambda>v. v) [''3.5'', ''0''])"
    by (intro row_statement_reads_back ids_g) simp_all
  moreover have "row_text (\<lambda>v. v) [''g1'', ''g2''] (''sampleA'', [''3.5'', ''0'']) =
     ''UPSERT INTO Expressions(sampleId, g1, g2) VALUES ('sampleA', 3.5, 0)''"
    by (simp add: row_text_def quoted_def)
  ultimately show ?thesis by simp
qed

text \<open>
  Claim C6. \<^verbatim>\<open>upsert_sample(cursor, sampleId, featureIds, values, add_features)\<close>: with
  \<open>add_features\<close> true the call is the sequential execution of the column addition for
  \<open>featureIds\<close>, then one catalog entry per featureId with the name omitted, then the row
  of the sample, in this order (a statement the backend refuses ends the call); when the
  call returns, exactly these statements were issued. With \<open>add_features\<close> false the row
  of the sample is the only statement issued: no column addition and no catalog entry.
\<close>

theorem upsert_sample_statement_order:
  "upsert_sample bk str sampleId featureIds vals True c =
     run_all bk (alter_text featureIds # map register_text featureIds @
                 [row_text str featureIds (sampleId, vals)]) c \<and>
   (fst (upsert_sample bk str sampleId featureIds vals True c) = Inr () \<longrightarrow>
      issued (snd (upsert_sample bk str sampleId featureIds vals True c)) =
        issued c @ alter_text featureIds # map register_text featureIds @
                   [row_text str featureIds (sampleId, vals)]) \<and>
   upsert_sample bk str sampleId featureIds vals False c =
     execute bk (row_text str featureIds (sampleId, vals)) c \<and>
   issued (snd (upsert_sample bk str sampleId featureIds vals False c)) =
     issued c @ [row_text str featureIds (sampleId, vals)]"
  using run_all_success_log [of bk "alter_text featureIds # map register_text featureIds @
                 [row_text str featureIds (sampleId, vals)]" c]
  by (simp add: upsert_sample_run_all)

text \<open>
  The theorem at the sample \<open>sampleA\<close> with the values 3.5 and 0, given by their
  \<^verbatim>\<open>str\<close> texts, on a backend that accepts every statement.
\<close>

theorem upsert_sample_statement_order_witness:
  "fst (upsert_sample always_ok (\<lambda>v. v) ''sampleA'' [''g1'', ''g2''] [''3.5'', ''0''] True fresh) = Inr () \<and>
   issued (snd (upsert_sample always_ok (\<lambda>v. v) ''sampleA'' [''g1'', ''g2''] [''3.5'', ''0''] True fresh)) =
     [''ALTER TABLE Expressions ADD g1 DECIMAL(10, 6), g2 DECIMAL(10, 6)'',
      ''UPSERT INTO Features(featureId) VALUES ('g1')'',
      ''UPSERT INTO Features(featureId) VALUES ('g2')'',
      ''UPSERT INTO Expressions(sampleId, g1, g2) VALUES ('sampleA', 3.5, 0)''] \<and>
   issued (snd (upsert_sample always_ok (\<lambda>v. v) ''sampleA'' [''g1'', ''g2''] [''3.5'', ''0''] False fresh)) =
     [''UPSERT INTO Expressions(sampleId, g1, g2) VALUES ('sampleA', 3.5, 0)'']"
proof -
  note order = upsert_sample_statement_order
      [of always_ok "\<lambda>v. v" "''sampleA''" "[''g1'', ''g2'']" "[''3.5'', ''0'']" fresh]
  have ok: "fst (upsert_sample always_ok (\<lambda>v. v) ''sampleA'' [''g1'', ''g2''] [''3.5'', ''0''] True fresh) = Inr ()"
    by (simp add: upsert_sample_run_all run_all_Cons execute_def always_ok_def)
  from order ok have
    "issued (snd (upsert_sample always_ok (\<lambda>v. v) ''sampleA'' [''g1'', ''g2''] [''3.5'', ''0''] True fresh)) =
       issued fresh @ alter_text [''g1'', ''g2''] # map register_text [''g1'', ''g2''] @
         [row_text (\<lambda>v. v) [''g1'', ''g2''] (''sampleA'', [''3.5'', ''0''])]"
    by blast
  moreover from order have
    "issued (snd (upsert_sample always_ok (\<lambda>v. v) ''sampleA'' [''g1'', ''g2''] [''3.5'', ''0''] False fresh)) =
       issued fresh @ [row_text (\<lambda>v. v) [''g1'', ''g2''] (''sampleA'', [''3.5'', ''0''])]"
    by blast
  ultimately show ?thesis
    using ok by (simp add: alter_text_def register_text_def row_text_def quoted_def)
qed

text \<open>
  Claim C7. \<^verbatim>\<open>upsert_samples(cursor, sampleIds, featureIds, vectors)\<close> is the
  sequential execution of one column addition for \<open>featureIds\<close>, one catalog entry per
  featureId, and then the rows of \<open>sampleIds[k]\<close> with \<open>vectors[k]\<close> for k = 0, 1, ... in
  this order, every row with the same \<open>featureIds\<close> (followed by an \<^verbatim>\<open>IndexError\<close> when
  \<open>vectors\<close> is shorter than \<open>sampleIds\<close>). When the call returns, the statements issued
  are exactly: the column addition once, the catalog entries once, and the row of every
  index k below the length of \<open>sampleIds\<close>, in positional order.
\<close>

theorem upsert_samples_statement_order:
  "upsert_samples bk str sampleIds featureIds vectors c =
     and_then
       (run_all bk (alter_text featureIds # map register_text featureIds @
                    map (row_text str featureIds) (zip sampleIds vectors)))
       (\<lambda>_. if length vectors < length sampleIds then raises IndexError else returns ()) c \<and>
   (fst (upsert_samples bk str sampleIds featureIds vectors c) = Inr () \<longrightarrow>
      issued (snd (upsert_samples bk str sampleIds featureIds vectors c)) =
        issued c @ alter_text featureIds # map register_text featureIds @
          map (\<lambda>k. row_text str featureIds (sampleIds ! k, vectors ! k)) [0..<length sampleIds])"
proof (intro conjI impI)
  let ?stmts = "alter_text featureIds # map register_text featureIds @
                map (row_text str featureIds) (zip sampleIds vectors)"
  show "upsert_samples bk str sampleIds featureIds vectors c =
     and_then (run_all bk ?stmts)
       (\<lambda>_. if length vectors < length sampleIds then raises IndexError else returns ()) c"
    by (rule upsert_samples_run_all)
  assume ok: "fst (upsert_samples bk str sampleIds featureIds vectors c) = Inr ()"
  obtain r c' where run: "run_all bk ?stmts c = (r, c')" by (cases "run_all bk ?stmts c")
  from ok run have r: "r = Inr ()" and len: "length sampleIds \<le> length vectors"
    and res: "snd (upsert_samples bk str sampleIds featureIds vectors c) = c'"
    by (auto simp add: upsert_samples_run_all and_then_def raises_def returns_def
        split: sum.splits if_splits)
  have "issued c' = issued c @ ?stmts"
    using run_all_success_log [of bk ?stmts c] run r by simp
  then show "issued (snd (upsert_samples bk str sampleIds featureIds vectors c)) =
        issued c @ alter_text featureIds # map register_text featureIds @
          map (\<lambda>k. row_text str featureIds (sampleIds ! k, vectors ! k)) [0..<length sampleIds]"
    using res zip_by_index [OF len] by (simp add: comp_def)
qed

text \<open>
  The theorem at two samples and two features.
\<close>

theorem upsert_samples_statement_order_witness:
  "fst (upsert_samples always_ok (\<lambda>v. v) [''sampleA'', ''sampleB''] [''g1'', ''g2'']
          [[''3.5'', ''0''], [''0'', ''7.25'']] fresh) = Inr () \<and>
   issued (snd (upsert_samples always_ok (\<lambda>v. v) [''sampleA'', ''sampleB''] [''g1'', ''g2'']
          [[''3.5'', ''0''], [''0'', ''7.25'']] fresh)) =
     [''ALTER TABLE Expressions ADD g1 DECIMAL(10, 6), g2 DECIMAL(10, 6)'',
      ''UPSERT INTO Features(featureId) VALUES ('g1')'',
      ''UPSERT INTO Features(featureId) VALUES ('g2')'',
      ''UPSERT INTO Expressions(sampleId, g1, g2) VALUES ('sampleA', 3.5, 0)'',
      ''UPSERT INTO Expressions(sampleId, g1, g2) VALUES ('sampleB', 0, 7.25)'']"
proof -
  let ?sids = "[''sampleA'', ''sampleB'']"
  let ?vecs = "[[''3.5'', ''0''], [''0'', ''7.25'']]"
  note order = upsert_samples_statement_order [of always_ok "\<lambda>v. v" ?sids "[''g1'', ''g2'']" ?vecs fresh]
  have ok: "fst (upsert_samples always_ok (\<lambda>v. v) ?sids [''g1'', ''g2''] ?vecs fresh) = Inr ()"
    by (simp add: upsert_samples_run_all run_all_Cons execute_def always_ok_def and_then_def
        returns_def)
  have two: "[0..<length ?sids] = [0, Suc 0]"
    by (simp add: upt_rec)
  from order ok have
    "issued (snd (upsert_samples always_ok (\<lambda>v. v) ?sids [''g1'', ''g2''] ?vecs fresh)) =
       issued fresh @ alter_text [''g1'', ''g2''] # map register_text [''g1'', ''g2''] @
          map (\<lambda>k. row_text (\<lambda>v. v) [''g1'', ''g2''] (?sids ! k, ?vecs ! k)) [0..<length ?sids]"
    by blast
  then show ?thesis
    unfolding two using ok
    by (simp add: alter_text_def register_text_def row_text_def quoted_def)
qed

text \<open>
  Claim C9. In a batch \<^verbatim>\<open>upsert_samples\<close> whose row write for index k is refused by the
  backend (every statement before it having been accepted), the call raises that error with
  the cursor as the refused statement left it: the rows of all indices below k have been
  issued, the refused row is the last statement issued, and nothing is issued after it, so
  no statement undoes the earlier rows.
\<close>

theorem upsert_samples_no_rollback:
  assumes "k < length sampleIds" and "k < length vectors"
    and "run_all bk (alter_text featureIds # map register_text featureIds @
           map (\<lambda>j. row_text str featureIds (sampleIds ! j, vectors ! j)) [0..<k]) c = (Inr (), c1)"
    and "execute bk (row_text str featureIds (sampleIds ! k, vectors ! k)) c1 = (Inl e, c2)"
  shows "upsert_samples bk str sampleIds featureIds vectors c = (Inl e, c2) \<and>
         issued c2 = issued c @ alter_text featureIds # map register_text featureIds @
           map (\<lambda>j. row_text str featureIds (sampleIds ! j, vectors ! j)) [0..<Suc k]"
proof -
  let ?row = "\<lambda>j. row_text str featureIds (sampleIds ! j, vectors ! j)"
  let ?head = "alter_text featureIds # map register_text featureIds @ map ?row [0..<k]"
  let ?m = "min (length sampleIds) (length vectors)"
  have z: "zip sampleIds vectors = map (\<lambda>j. (sampleIds ! j, vectors ! j)) [0..<?m]"
    by (rule nth_equalityI) simp_all
  have km: "k < ?m" using assms(1,2) by simp
  have "[0..<?m] = [0..<k] @ [k..<?m]"
    using km upt_add_eq_append [of 0 k "?m - k"] by simp
  also have "[k..<?m] = k # [Suc k..<?m]"
    using km by (rule upt_conv_Cons)
  finally have split: "alter_text featureIds # map register_text featureIds @
        map (row_text str featureIds) (zip sampleIds vectors) =
      ?head @ ?row k # map ?row [Suc k..<?m]"
    by (simp add: z comp_def)
  have "run_all bk (?head @ ?row k # map ?row [Suc k..<?m]) c =
          run_all bk (?row k # map ?row [Suc k..<?m]) c1"
    unfolding run_all_append [of bk ?head] assms(3) by simp
  then have "run_all bk (?head @ ?row k # map ?row [Suc k..<?m]) c = (Inl e, c2)"
    unfolding run_all_Cons [of bk "?row k"] assms(4) by simp
  then have res: "upsert_samples bk str sampleIds featureIds vectors c = (Inl e, c2)"
    by (simp add: upsert_samples_run_all split and_then_def)
  have "issued c1 = issued c @ ?head"
    using run_all_success_log [of bk ?head c] assms(3) by simp
  moreover have "issued c2 = issued c1 @ [?row k]"
    using issued_execute [of bk "?row k" c1] assms(4) by simp
  ultimately show ?thesis using res by simp
qed

text \<open>
  The theorem at a batch of three samples on a backend that refuses the row of the second:
  the column addition, the catalog entry and the rows of the first two samples are the
  statements issued, the third row is never attempted.
\<close>

theorem upsert_samples_no_rollback_witness:
  "upsert_samples (refuse_only ''UPSERT INTO Expressions(sampleId, g1) VALUES ('sampleB', 2)'')
     (\<lambda>v. v) [''sampleA'', ''sampleB'', ''sampleC''] [''g1''] [[''1''], [''2''], [''3'']] fresh =
   (Inl (DatabaseError ''refused''),
    \<lparr>issued =
       [''ALTER TABLE Expressions ADD g1 DECIMAL(10, 6)'',
        ''UPSERT INTO Features(featureId) VALUES ('g1')'',
        ''UPSERT INTO Expressions(sampleId, g1) VALUES ('sampleA', 1)'',
        ''UPSERT INTO Expressions(sampleId, g1) VALUES ('sampleB', 2)''],
     db = (), printed = []\<rparr>)"
proof -
  let ?bk = "refuse_only ''UPSERT INTO Expressions(sampleId, g1) VALUES ('sampleB', 2)''"
  let ?sids = "[''sampleA'', ''sampleB'', ''sampleC'']"
  let ?vecs = "[[''1''], [''2''], [''3'']]"
  let ?c1 = "\<lparr>issued =
       [''ALTER TABLE Expressions ADD g1 DECIMAL(10, 6)'',
        ''UPSERT INTO Features(featureId) VALUES ('g1')'',
        ''UPSERT INTO Expressions(sampleId, g1) VALUES ('sampleA', 1)''],
     db = (), printed = []\<rparr>"
  let ?c2 = "\<lparr>issued =
       [''ALTER TABLE Expressions ADD g1 DECIMAL(10, 6)'',
        ''UPSERT INTO Features(featureId) VALUES ('g1')'',
        ''UPSERT INTO Expressions(sampleId, g1) VALUES ('sampleA', 1)'',
        ''UPSERT INTO Expressions(sampleId, g1) VALUES ('sampleB', 2)''],
     db = (), printed = []\<rparr>"
  have before: "run_all ?bk (alter_text [''g1''] # map register_text [''g1''] @
           map (\<lambda>j. row_text (\<lambda>v. v) [''g1''] (?sids ! j, ?vecs ! j)) [0..<Suc 0]) fresh = (Inr (), ?c1)"
    by (simp add: run_all_Cons execute_def refuse_only_def alter_text_def register_text_def
        row_text_def quoted_def fresh_def)
  have fails: "execute ?bk (row_text (\<lambda>v. v) [''g1''] (?sids ! Suc 0, ?vecs ! Suc 0)) ?c1 =
      (Inl (DatabaseError ''refused''), ?c2)"
    by (simp add: execute_def refuse_only_def row_text_def quoted_def)
  have k1: "Suc 0 < length ?sids" and k2: "Suc 0 < length ?vecs"
    by simp_all
  from upsert_samples_no_rollback [OF k1 k2 before fails] show ?thesis
    by (rule conjunct1)
qed

subsection \<open>Initialization\<close>

lemma priv_safe_fn_result:
  "fst (priv_safe_fn fn c) = Inr (case fst (fn c) of Inl e \<Rightarrow> None | Inr r \<Rightarrow> Some r)"
  by (simp add: priv_safe_fn_def split: prod.split sum.split)

lemma priv_safe_fn_issued: "issued (snd (priv_safe_fn fn c)) = issued (snd (fn c))"
  by (simp add: priv_safe_fn_def split: prod.split sum.split)

lemma initialize_with_cursor:
  assumes "connection_cursor connection = Inr cursor"
  shows "initialize bk connection =
           Inr (snd (priv_safe_fn (priv_create_features_table bk)
                  (snd (priv_safe_fn (priv_create_expressions_table bk) cursor))))"
proof -
  let ?first = "priv_safe_fn (priv_create_expressions_table bk)"
  let ?second = "priv_safe_fn (priv_create_features_table bk)"
  let ?c1 = "snd (?first cursor)"
  let ?c2 = "snd (?second ?c1)"
  have "and_then ?first (\<lambda>_. and_then ?second (\<lambda>_. returns ())) cursor =
      and_then ?second (\<lambda>_. returns ()) ?c1"
    by (rule and_then_Inr) (rule priv_safe_fn_result)
  also have "\<dots> = returns () ?c2"
    by (rule and_then_Inr) (rule priv_safe_fn_result)
  finally have "and_then ?first (\<lambda>_. and_then ?second (\<lambda>_. returns ())) cursor = (Inr (), ?c2)"
    by (simp add: returns_def)
  then show ?thesis
    using assms by (simp add: initialize_def)
qed

text \<open>
  Claim C8, as the code has it. For every connection whose \<^verbatim>\<open>cursor()\<close> call hands out a
  cursor and every backend, whatever it answers to the two \<^verbatim>\<open>CREATE TABLE\<close> statements,
  \<^verbatim>\<open>initialize\<close> returns the cursor, and both creation statements have been issued, the
  row store first and the feature catalog second: a refused first statement does not keep
  the second from being issued. An exception of \<^verbatim>\<open>connection.cursor()\<close> itself is not
  caught: it is the exception of \<^verbatim>\<open>initialize\<close>.
\<close>

theorem initialize_swallows_creation_errors:
  "(connection_cursor connection = Inr cursor \<longrightarrow>
      (\<exists>c'. initialize bk connection = Inr c' \<and>
            issued c' = issued cursor @
              [''CREATE TABLE Expressions (sampleId VARCHAR PRIMARY KEY)'',
               ''CREATE TABLE Features (featureId VARCHAR PRIMARY KEY, featureName VARCHAR)''])) \<and>
   (connection_cursor connection = Inl e \<longrightarrow> initialize bk connection = Inl e)"
proof (intro conjI impI)
  assume "connection_cursor connection = Inl e"
  then show "initialize bk connection = Inl e"
    by (simp add: initialize_def)
next
  let ?first = "priv_safe_fn (priv_create_expressions_table bk)"
  let ?second = "priv_safe_fn (priv_create_features_table bk)"
  let ?c1 = "snd (?first cursor)"
  let ?c2 = "snd (?second ?c1)"
  assume "connection_cursor connection = Inr cursor"
  then have run: "initialize bk connection = Inr ?c2"
    by (rule initialize_with_cursor)
  have "issued ?c1 = issued cursor @ [''CREATE TABLE Expressions (sampleId VARCHAR PRIMARY KEY)'']"
    by (simp add: priv_safe_fn_issued priv_create_expressions_table_def)
  moreover have "issued ?c2 = issued ?c1 @
      [''CREATE TABLE Features (featureId VARCHAR PRIMARY KEY, featureName VARCHAR)'']"
    by (simp add: priv_safe_fn_issued priv_create_features_table_def)
  ultimately have "issued ?c2 = issued cursor @
      [''CREATE TABLE Expressions (sampleId VARCHAR PRIMARY KEY)'',
       ''CREATE TABLE Features (featureId VARCHAR PRIMARY KEY, featureName VARCHAR)'']"
    by simp
  with run show "\<exists>c'. initialize bk connection = Inr c' \<and>
       issued c' = issued cursor @
         [''CREATE TABLE Expressions (sampleId VARCHAR PRIMARY KEY)'',
          ''CREATE TABLE Features (featureId VARCHAR PRIMARY KEY, featureName VARCHAR)'']"
    by (intro exI [of _ ?c2] conjI)
qed

text \<open>
  The theorem on a connection that hands out a fresh cursor and a backend that refuses the
  creation of the row store (and only it): the first attempt raises inside
  \<^verbatim>\<open>_safe_fn\<close>, the exception is printed, and both statements are issued.
\<close>

theorem initialize_swallows_creation_errors_witness:
  "initialize (refuse_only ''CREATE TABLE Expressions (sampleId VARCHAR PRIMARY KEY)'')
     \<lparr>connection_cursor = Inr fresh\<rparr> =
   Inr \<lparr>issued =
          [''CREATE TABLE Expressions (sampleId VARCHAR PRIMARY KEY)'',
           ''CREATE TABLE Features (featureId VARCHAR PRIMARY KEY, featureName VARCHAR)''],
        db = (), printed = [DatabaseError ''refused'']\<rparr> \<and>
   fst (priv_create_expressions_table
          (refuse_only ''CREATE TABLE Expressions (sampleId VARCHAR PRIMARY KEY)'') fresh) =
     Inl (DatabaseError ''refused'')"
proof -
  let ?bk = "refuse_only ''CREATE TABLE Expressions (sampleId VARCHAR PRIMARY KEY)''"
  let ?connection = "\<lparr>connection_cursor = Inr fresh\<rparr> :: unit connection"
  have "connection_cursor ?connection = Inr fresh"
    by simp
  with initialize_swallows_creation_errors [of ?connection fresh ?bk, THEN conjunct1]
  have "\<exists>c'. initialize ?bk ?connection = Inr c' \<and>
       issued c' = issued fresh @
         [''CREATE TABLE Expressions (sampleId VARCHAR PRIMARY KEY)'',
          ''CREATE TABLE Features (featureId VARCHAR PRIMARY KEY, featureName VARCHAR)'']"
    by (rule mp)
  then obtain c' where ret: "initialize ?bk ?connection = Inr c'"
    by (elim exE conjE)
  have "initialize ?bk ?connection =
      Inr \<lparr>issued =
          [''CREATE TABLE Expressions (sampleId VARCHAR PRIMARY KEY)'',
           ''CREATE TABLE Features (featureId VARCHAR PRIMARY KEY, featureName VARCHAR)''],
        db = (), printed = [DatabaseError ''refused'']\<rparr>"
    using ret
    by (simp add: initialize_def and_then_def returns_def priv_safe_fn_def
        priv_create_expressions_table_def priv_create_features_table_def execute_def
        refuse_only_def fresh_def)
  moreover have "fst (priv_create_expressions_table ?bk fresh) = Inl (DatabaseError ''refused'')"
    by (simp add: priv_create_expressions_table_def execute_def refuse_only_def)
  ultimately show ?thesis by (rule conjI)
qed

text \<open>
  Claim C8 as stated, for every connection, fails: on a connection whose
  \<^verbatim>\<open>cursor()\<close> call raises (a closed one), \<^verbatim>\<open>initialize\<close> raises that exception to its
  caller, whatever the backend is.
\<close>

theorem initialize_swallows_creation_errors_counterexample:
  "initialize always_ok
     \<lparr>connection_cursor = Inl (DatabaseError ''the connection is already closed'')\<rparr> =
   Inl (DatabaseError ''the connection is already closed'')"
  by (simp add: initialize_def)

subsection \<open>A falsy feature name is an absent one\<close>

lemma run_all_two_log:
  "issued (snd (run_all bk [s1, s2] c)) =
     (if fst (execute bk s1 c) = Inr () then issued c @ [s1, s2] else issued c @ [s1])"
proof -
  obtain r c' where e: "execute bk s1 c = (r, c')"
    by (cases "execute bk s1 c")
  then have first: "issued c' = issued c @ [s1]"
    using issued_execute [of bk s1 c] by simp
  show ?thesis
  proof (cases r)
    case (Inl x)
    then have "run_all bk [s1, s2] c = (Inl x, c')"
      using e by (simp add: run_all_Cons)
    then show ?thesis
      using e first Inl by simp
  next
    case (Inr u)
    then have "run_all bk [s1, s2] c = run_all bk [s2] c'"
      using e by (simp add: run_all_Cons [of bk s1])
    then have "run_all bk [s1, s2] c = execute bk s2 c'"
      by simp
    then show ?thesis
      using e first Inr by simp
  qed
qed

text \<open>
  Claim C10. For every featureId, a provided but falsy featureName (the empty string) makes
  \<^verbatim>\<open>_upsert_feature\<close>, and hence \<^verbatim>\<open>upsert_feature\<close>, behave exactly as with no name.
  The one statement \<^verbatim>\<open>_upsert_feature\<close> issues is
  \<^verbatim>\<open>UPSERT INTO Features(featureId) VALUES ('<id>')\<close>, which does not mention the
  featureName column. \<^verbatim>\<open>upsert_feature\<close> is the column addition for the feature followed
  by that same statement: when the backend accepts the column addition, the statements
  issued are exactly these two, and when it refuses it, the column addition alone.
\<close>

theorem falsy_feature_name_is_absent:
  "priv_upsert_feature bk featureId (Some '''') c = priv_upsert_feature bk featureId None c \<and>
   upsert_feature bk featureId (Some '''') c = upsert_feature bk featureId None c \<and>
   issued (snd (priv_upsert_feature bk featureId (Some '''') c)) =
     issued c @ [''UPSERT INTO Features(featureId) VALUES ('' @ quoted featureId @ '')''] \<and>
   upsert_feature bk featureId (Some '''') c =
     run_all bk [alter_text [featureId],
                 ''UPSERT INTO Features(featureId) VALUES ('' @ quoted featureId @ '')''] c \<and>
   issued (snd (upsert_feature bk featureId (Some '''') c)) =
     (if fst (execute bk (alter_text [featureId]) c) = Inr ()
      then issued c @ [alter_text [featureId],
                       ''UPSERT INTO Features(featureId) VALUES ('' @ quoted featureId @ '')'']
      else issued c @ [alter_text [featureId]])"
proof -
  let ?catalog = "''UPSERT INTO Features(featureId) VALUES ('' @ quoted featureId @ '')''"
  have inner: "priv_upsert_feature bk featureId (Some '''') = execute bk ?catalog"
    "priv_upsert_feature bk featureId None = execute bk ?catalog"
    by (simp_all add: priv_upsert_feature_def truthy_simps)
  have outer: "upsert_feature bk featureId (Some '''') c =
      run_all bk [alter_text [featureId], ?catalog] c"
    by (simp add: upsert_feature_def inner priv_alter_expressions_table_text and_then_def
        run_all_Cons split: prod.split sum.split)
  have same: "upsert_feature bk featureId (Some '''') c = upsert_feature bk featureId None c"
    by (simp add: upsert_feature_def inner)
  have log: "issued (snd (run_all bk [alter_text [featureId], ?catalog] c)) =
      (if fst (execute bk (alter_text [featureId]) c) = Inr ()
       then issued c @ [alter_text [featureId], ?catalog]
       else issued c @ [alter_text [featureId]])"
    by (rule run_all_two_log)
  have third: "issued (snd (priv_upsert_feature bk featureId (Some '''') c)) =
      issued c @ [?catalog]"
    by (simp add: inner)
  have fifth: "issued (snd (upsert_feature bk featureId (Some '''') c)) =
      (if fst (execute bk (alter_text [featureId]) c) = Inr ()
       then issued c @ [alter_text [featureId], ?catalog]
       else issued c @ [alter_text [featureId]])"
    unfolding outer by (rule log)
  have first_eq: "priv_upsert_feature bk featureId (Some '''') c =
      priv_upsert_feature bk featureId None c"
    by (simp add: inner)
  from first_eq same third outer fifth show ?thesis
    by (intro conjI)
qed

text \<open>
  The theorem at the feature \<open>gene1\<close>, on a backend that accepts every statement.
\<close>

theorem falsy_feature_name_is_absent_witness:
  "priv_upsert_feature always_ok ''gene1'' (Some '''') fresh =
     priv_upsert_feature always_ok ''gene1'' None fresh \<and>
   upsert_feature always_ok ''gene1'' (Some '''') fresh =
     upsert_feature always_ok ''gene1'' None fresh \<and>
   issued (snd (priv_upsert_feature always_ok ''gene1'' (Some '''') fresh)) =
     [''UPSERT INTO Features(featureId) VALUES ('gene1')''] \<and>
   issued (snd (upsert_feature always_ok ''gene1'' (Some '''') fresh)) =
     [''ALTER TABLE Expressions ADD gene1 DECIMAL(10, 6)'',
      ''UPSERT INTO Features(featureId) VALUES ('gene1')'']"
proof -
  note t = falsy_feature_name_is_absent [of always_ok "''gene1''" fresh]
  have accepted: "fst (execute always_ok (alter_text [''gene1'']) fresh) = Inr ()"
    by (simp add: execute_def always_ok_def)
  have "issued (snd (upsert_feature always_ok ''gene1'' (Some '''') fresh)) =
      issued fresh @ [alter_text [''gene1''],
        ''UPSERT INTO Features(featureId) VALUES ('' @ quoted ''gene1'' @ '')'']"
    using t [THEN conjunct2, THEN conjunct2, THEN conjunct2, THEN conjunct2]
    unfolding accepted by simp
  then have last: "issued (snd (upsert_feature always_ok ''gene1'' (Some '''') fresh)) =
     [''ALTER TABLE Expressions ADD gene1 DECIMAL(10, 6)'',
      ''UPSERT INTO Features(featureId) VALUES ('gene1')'']"
    by (simp add: alter_text_def quoted_def)
  have third: "issued (snd (priv_upsert_feature always_ok ''gene1'' (Some '''') fresh)) =
     [''UPSERT INTO Features(featureId) VALUES ('gene1')'']"
    using t [THEN conjunct2, THEN conjunct2, THEN conjunct1] by (simp add: quoted_def)
  from t [THEN conjunct1] t [THEN conjunct2, THEN conjunct1] third last show ?thesis
    by (intro conjI)
qed

end
